theory Spec2Isabelle
  imports Main "HOL-Library.Word" "HOL-Library.Code_Target_Nat"
begin

section \<open>The vcgt parser of xcalib: \<^verbatim>\<open>read_vcgt_from_profile\<close> (src/xcalib.c, lines 121-322)\<close>

text \<open>
  The function opens an ICC profile, walks its tag directory, and when it meets the tag
  named \<^verbatim>\<open>vcgt\<close> decodes a gamma formula or a gamma table into three ramps of
  \<^verbatim>\<open>*nEntries\<close> entries each. The model follows the C text statement by statement.

  Conventions of the embedding:
  \<^item> an \<^verbatim>\<open>unsigned char\<close> is an \<open>8 word\<close>, an \<^verbatim>\<open>u_int16_t\<close> a \<open>16 word\<close>;
    \<^verbatim>\<open>unsigned int\<close> values are natural numbers, and every expression that could leave
    the 32-bit range carries its \<open>mod 2 ^ 32\<close>;
  \<^item> the opened file is its byte content and a read position; \<^verbatim>\<open>fread\<close> delivers the
    bytes that are left, never more, and leaves the rest of the buffer as it was;
  \<^item> what C leaves indeterminate is an input of the model (\<open>env\<close>): the bytes of the
    local buffer \<^verbatim>\<open>cTmp\<close> on entry and the contents of freshly allocated arrays;
    the floating-point expression of the formula branch is an input as well;
  \<^item> a run that does not come back to the caller is a value of type \<open>abort\<close>:
    \<^verbatim>\<open>error\<close> ends the process with \<^verbatim>\<open>exit (-1)\<close>; a read past the end of an
    allocated array, a division by zero and an overflow of a signed counter are
    undefined behaviour in C and are kept apart from every returned result;
  \<^item> \<^verbatim>\<open>malloc\<close> is taken to succeed, and \<^verbatim>\<open>long\<close> to hold every 32-bit offset.
\<close>

type_synonym byte = "8 word"
type_synonym u16 = "16 word"
type_synonym ramps = "u16 list \<times> u16 list \<times> u16 list"

datatype abort = ProcessExit | OutOfBoundsRead | DivisionByZero | SignedOverflow

record env =
  stack_cTmp :: "byte \<times> byte \<times> byte \<times> byte"
  fresh :: "nat \<Rightarrow> nat \<Rightarrow> u16"
  gamma_entry :: "nat \<Rightarrow> nat \<Rightarrow> nat \<Rightarrow> u16"

text \<open>
  \<open>fresh env k i\<close> is what cell \<open>i\<close> of the \<open>k\<close>-th allocated array holds before the
  program writes it (\<open>k\<close> = 0, 1, 2 for \<^verbatim>\<open>redRamp\<close>, \<^verbatim>\<open>greenRamp\<close>, \<^verbatim>\<open>blueRamp\<close>;
  3, 4, 5 for \<^verbatim>\<open>*rRamp\<close>, \<^verbatim>\<open>*gRamp\<close>, \<^verbatim>\<open>*bRamp\<close>).
  \<open>gamma_entry env u j n\<close> stands for the C expression
  \<^verbatim>\<open>65563 * (double) pow ((double) j / (double) n, ((float) u / 65536.0) * 2.222222)\<close>
  converted to \<^verbatim>\<open>unsigned short\<close>.
\<close>

definition malloc :: "env \<Rightarrow> nat \<Rightarrow> nat \<Rightarrow> u16 list" where
  "malloc e k n = map (fresh e k) [0..<n]"

definition INT_MAX :: nat where
  "INT_MAX = 2147483647"

subsection \<open>The file and the read buffer\<close>

record reader =
  content :: "byte list"
  fpos :: nat
  cTmp :: "byte \<times> byte \<times> byte \<times> byte"
  bytesRead :: nat

fun store :: "byte list \<Rightarrow> byte \<times> byte \<times> byte \<times> byte \<Rightarrow> byte \<times> byte \<times> byte \<times> byte" where
  "store [] c = c"
| "store [x] (c0, c1, c2, c3) = (x, c1, c2, c3)"
| "store [x, y] (c0, c1, c2, c3) = (x, y, c2, c3)"
| "store [x, y, z] (c0, c1, c2, c3) = (x, y, z, c3)"
| "store (x # y # z # w # rest) (c0, c1, c2, c3) = (x, y, z, w)"

text \<open>\<^verbatim>\<open>bytesRead = fread (cTmp, 1, n, fp)\<close>, for \<open>n \<le> 4\<close>.\<close>

definition fread :: "nat \<Rightarrow> reader \<Rightarrow> reader" where
  "fread n s =
     (let got = take n (drop (fpos s) (content s))
      in s\<lparr>fpos := fpos s + length got, cTmp := store got (cTmp s), bytesRead := length got\<rparr>)"

text \<open>\<^verbatim>\<open>fseek (fp, off, SEEK_SET)\<close>: any offset is accepted, also one behind the last byte.\<close>

definition fseek :: "nat \<Rightarrow> reader \<Rightarrow> reader" where
  "fseek off s = s\<lparr>fpos := off\<rparr>"

text \<open>\<^verbatim>\<open>cTmp[3]+cTmp[2]*256+cTmp[1]*65536+cTmp[0]*16777216\<close>, assigned to an \<^verbatim>\<open>unsigned int\<close>.\<close>

fun be32 :: "byte \<times> byte \<times> byte \<times> byte \<Rightarrow> nat" where
  "be32 (c0, c1, c2, c3) =
     (unat c3 + unat c2 * 256 + unat c1 * 65536 + unat c0 * 16777216) mod 2 ^ 32"

text \<open>\<^verbatim>\<open>cTmp[1]+cTmp[0]*256\<close>.\<close>

fun be16 :: "byte \<times> byte \<times> byte \<times> byte \<Rightarrow> nat" where
  "be16 (c0, c1, c2, c3) = unat c1 + unat c0 * 256"

text \<open>The multi-character constant \<^verbatim>\<open>'vcgt'\<close>, with the value gcc and clang give it.\<close>

definition vcgt :: nat where
  "vcgt = 1986226036"

subsection \<open>Counting loops\<close>

text \<open>
  \<^verbatim>\<open>for (j = 0; j < n; j++) body\<close> with \<^verbatim>\<open>int j\<close> and an unsigned bound: the body may
  abort the run, and \<^verbatim>\<open>j++\<close> overflows at \<open>INT_MAX\<close>.
\<close>

function for_loop :: "nat \<Rightarrow> nat \<Rightarrow> (nat \<Rightarrow> 'a \<Rightarrow> abort + 'a) \<Rightarrow> 'a \<Rightarrow> abort + 'a" where
  "for_loop j n body st =
     (if j < n then
        (case body j st of
           Inl a \<Rightarrow> Inl a
         | Inr st' \<Rightarrow> if INT_MAX \<le> j then Inl SignedOverflow else for_loop (Suc j) n body st')
      else Inr st)"
  by pat_completeness auto
termination
  by (relation "measure (\<lambda>(j, n, body, st). n - j)") auto

declare for_loop.simps [simp del]

subsection \<open>Resampling the table (lines 285-313)\<close>

text \<open>
  One pass of the copying loops: \<^verbatim>\<open>rRamp[0][j] = redRamp[idx]\<close> and the same for green
  and blue. The source arrays hold \<^verbatim>\<open>numEntries\<close> cells; an index behind them is a read
  outside the allocation.
\<close>

fun copy_entry :: "ramps \<Rightarrow> (nat \<Rightarrow> nat) \<Rightarrow> nat \<Rightarrow> ramps \<Rightarrow> abort + ramps" where
  "copy_entry (redRamp, greenRamp, blueRamp) idx j (rRamp, gRamp, bRamp) =
     (if idx j < length redRamp \<and> idx j < length greenRamp \<and> idx j < length blueRamp then
        Inr (rRamp[j := redRamp ! idx j], gRamp[j := greenRamp ! idx j],
             bRamp[j := blueRamp ! idx j])
      else Inl OutOfBoundsRead)"

definition interpolate :: "env \<Rightarrow> nat \<Rightarrow> nat \<Rightarrow> ramps \<Rightarrow> abort + ramps" where
  "interpolate e nEntries numEntries samples =
     (if nEntries = numEntries then Inr samples
      else if nEntries < numEntries then
        (if nEntries = 0 then Inl DivisionByZero
         else
           let ratio = numEntries div nEntries;
               out = (malloc e 3 nEntries, malloc e 4 nEntries, malloc e 5 nEntries)
           in for_loop 0 nEntries (copy_entry samples (\<lambda>j. (ratio * j) mod 2 ^ 32)) out)
      else
        (if numEntries = 0 then Inl DivisionByZero
         else
           let ratio = nEntries div numEntries;
               out = (malloc e 3 nEntries, malloc e 4 nEntries, malloc e 5 nEntries)
           in for_loop 0 nEntries (copy_entry samples (\<lambda>j. j div ratio)) out))"

subsection \<open>Reading the samples of a table (lines 253-284)\<close>

text \<open>
  The body of one sample loop, \<^verbatim>\<open>switch (entrySize)\<close>. The branch \<^verbatim>\<open>case 1\<close> has no
  \<^verbatim>\<open>break\<close>, so control runs on into \<^verbatim>\<open>case 2\<close>; any other \<^verbatim>\<open>entrySize\<close>
  matches no label and leaves the cell as \<^verbatim>\<open>malloc\<close> delivered it.
\<close>

definition case_2 :: "nat \<Rightarrow> reader \<times> u16 list \<Rightarrow> reader \<times> u16 list" where
  "case_2 j st =
     (let s = fread 2 (fst st)
      in (s, (snd st)[j := word_of_nat (be16 (cTmp s))]))"

definition case_1 :: "nat \<Rightarrow> reader \<times> u16 list \<Rightarrow> reader \<times> u16 list" where
  "case_1 j st =
     (let s = fread 1 (fst st)
      in case_2 j (s, (snd st)[j := ucast (fst (cTmp s))]))"

definition switch_entrySize :: "nat \<Rightarrow> nat \<Rightarrow> reader \<times> u16 list \<Rightarrow> reader \<times> u16 list" where
  "switch_entrySize entrySize j st =
     (if entrySize = 1 then case_1 j st
      else if entrySize = 2 then case_2 j st
      else st)"

definition read_entry :: "nat \<Rightarrow> nat \<Rightarrow> reader \<times> u16 list \<Rightarrow> abort + reader \<times> u16 list" where
  "read_entry entrySize j st = Inr (switch_entrySize entrySize j st)"

text \<open>The three loops, red, green, blue, each over its own fresh array.\<close>

definition read_samples :: "env \<Rightarrow> nat \<Rightarrow> nat \<Rightarrow> reader \<Rightarrow> abort + reader \<times> ramps" where
  "read_samples e numEntries entrySize s =
     (case for_loop 0 numEntries (read_entry entrySize) (s, malloc e 0 numEntries) of
        Inl a \<Rightarrow> Inl a
      | Inr (s1, redRamp) \<Rightarrow>
     (case for_loop 0 numEntries (read_entry entrySize) (s1, malloc e 1 numEntries) of
        Inl a \<Rightarrow> Inl a
      | Inr (s2, greenRamp) \<Rightarrow>
     (case for_loop 0 numEntries (read_entry entrySize) (s2, malloc e 2 numEntries) of
        Inl a \<Rightarrow> Inl a
      | Inr (s3, blueRamp) \<Rightarrow> Inr (s3, (redRamp, greenRamp, blueRamp)))))"

subsection \<open>The two kinds of tag body\<close>

text \<open>
  The result of a run that returns: the returned \<^verbatim>\<open>int\<close>, and the three arrays the
  output pointers were set to, \<open>None\<close> when the function never assigned them.
\<close>

type_synonym result = "abort + int \<times> ramps option"

text \<open>
  VideoCardGammaTable (lines 239-314): three 2-byte fields, the samples, the resampling.
  A channel count other than 3 jumps to \<^verbatim>\<open>cleanup_fileparser\<close>.
\<close>

definition table_header :: "reader \<Rightarrow> nat \<times> nat \<times> nat \<times> reader" where
  "table_header s =
     (let s1 = fread 2 s; numChannels = be16 (cTmp s1);
          s2 = fread 2 s1; numEntries = be16 (cTmp s2);
          s3 = fread 2 s2; entrySize = be16 (cTmp s3)
      in (numChannels, numEntries, entrySize, s3))"

definition decode_table :: "env \<Rightarrow> nat \<Rightarrow> reader \<Rightarrow> result" where
  "decode_table e nEntries s =
     (case table_header s of (numChannels, numEntries, entrySize, s3) \<Rightarrow>
        if numChannels \<noteq> 3 then Inr (0, None)
        else
          (case read_samples e numEntries entrySize s3 of
             Inl a \<Rightarrow> Inl a
           | Inr (s4, samples) \<Rightarrow>
               (case interpolate e nEntries numEntries samples of
                  Inl a \<Rightarrow> Inl a
                | Inr out \<Rightarrow> Inr (0, Some out))))"

text \<open>
  VideoCardGammaFormula (lines 184-237): nine 4-byte fields are read; the ramps are
  computed from the three gamma fields, the six others are only printed.
\<close>

definition formula_entry :: "env \<Rightarrow> nat \<Rightarrow> nat \<Rightarrow> nat \<Rightarrow> nat \<Rightarrow> nat \<Rightarrow> ramps \<Rightarrow> abort + ramps" where
  "formula_entry e nEntries rGamma gGamma bGamma j out =
     (case out of (rRamp, gRamp, bRamp) \<Rightarrow>
        Inr (rRamp[j := gamma_entry e rGamma j nEntries],
             gRamp[j := gamma_entry e gGamma j nEntries],
             bRamp[j := gamma_entry e bGamma j nEntries]))"

definition decode_formula :: "env \<Rightarrow> nat \<Rightarrow> reader \<Rightarrow> result" where
  "decode_formula e nEntries s =
     (let s1 = fread 4 s; rGamma = be32 (cTmp s1);
          s2 = fread 4 s1; rMin = be32 (cTmp s2);
          s3 = fread 4 s2; rMax = be32 (cTmp s3);
          s4 = fread 4 s3; gGamma = be32 (cTmp s4);
          s5 = fread 4 s4; gMin = be32 (cTmp s5);
          s6 = fread 4 s5; gMax = be32 (cTmp s6);
          s7 = fread 4 s6; bGamma = be32 (cTmp s7);
          s8 = fread 4 s7; bMin = be32 (cTmp s8);
          s9 = fread 4 s8; bMax = be32 (cTmp s9);
          out = (malloc e 3 nEntries, malloc e 4 nEntries, malloc e 5 nEntries)
      in case for_loop 0 nEntries (formula_entry e nEntries rGamma gGamma bGamma) out of
           Inl a \<Rightarrow> Inl a
         | Inr out' \<Rightarrow> Inr (0, Some out'))"

subsection \<open>The tag body (lines 171-315)\<close>

text \<open>
  After the seek the signature is read again; when it is not \<^verbatim>\<open>'vcgt'\<close> the function
  calls \<^verbatim>\<open>error\<close>, which prints and ends the process (lines 748-759).
\<close>

definition decode_vcgt :: "env \<Rightarrow> nat \<Rightarrow> nat \<Rightarrow> reader \<Rightarrow> result" where
  "decode_vcgt e nEntries tagOffset s =
     (let s1 = fread 4 (fseek tagOffset s); tagName = be32 (cTmp s1)
      in if tagName \<noteq> vcgt then Inl ProcessExit
         else
           let s2 = fread 4 s1;
               s3 = fread 4 s2; gammaType = be32 (cTmp s3)
           in if gammaType = 1 then decode_formula e nEntries s3
              else if gammaType = 0 then decode_table e nEntries s3
              else Inr (0, None))"

subsection \<open>The tag directory (lines 160-317) and the function\<close>

text \<open>
  Each round reads name, offset and size of one entry. Only the count of the third
  \<^verbatim>\<open>fread\<close> is looked at: zero leaves the loop. The first entry named \<^verbatim>\<open>'vcgt'\<close>
  is decoded and ends the loop.
\<close>

function tag_loop :: "env \<Rightarrow> nat \<Rightarrow> nat \<Rightarrow> nat \<Rightarrow> reader \<Rightarrow> result" where
  "tag_loop e nEntries i numTags s =
     (if i < numTags then
        (let s1 = fread 4 s; tagName = be32 (cTmp s1);
             s2 = fread 4 s1; tagOffset = be32 (cTmp s2);
             s3 = fread 4 s2; tagSize = be32 (cTmp s3)
         in if bytesRead s3 = 0 then Inr (0, None)
            else if tagName = vcgt then decode_vcgt e nEntries tagOffset s3
            else if INT_MAX \<le> i then Inl SignedOverflow
            else tag_loop e nEntries (Suc i) numTags s3)
      else Inr (0, None))"
  by pat_completeness auto
termination
  by (relation "measure (\<lambda>(e, nEntries, i, numTags, s). numTags - i)") auto

declare tag_loop.simps [simp del]

text \<open>
  The file argument is \<open>None\<close> when \<^verbatim>\<open>filename\<close> is \<^verbatim>\<open>NULL\<close> or \<^verbatim>\<open>fopen\<close> fails,
  and the content of the opened file otherwise. \<^verbatim>\<open>bytesRead\<close> is assigned before
  it is first read.
\<close>

definition read_vcgt_from_profile :: "env \<Rightarrow> byte list option \<Rightarrow> nat \<Rightarrow> result" where
  "read_vcgt_from_profile e file nEntries =
     (case file of
        None \<Rightarrow> Inr (- 1, None)
      | Some bytes \<Rightarrow>
          (let fp = fseek (0 + 128) \<lparr>content = bytes, fpos = 0, cTmp = stack_cTmp e, bytesRead = 0\<rparr>;
               s = fread 4 fp; numTags = be32 (cTmp s)
           in tag_loop e nEntries 0 numTags s))"

section \<open>The layout of a profile\<close>

text \<open>
  The fields of the file as the format lays them out, for stating where the parser
  finds what: a big-endian 32-bit or 16-bit number at an offset; the tag count sits at
  offset 128, and directory entry \<open>i\<close> occupies the twelve bytes from \<open>132 + 12 * i\<close>:
  name, offset, size. \<open>after_entry bs i\<close> is the reader once entry \<open>i\<close> has been read:
  it stands behind the entry and its buffer holds the size field.
\<close>

definition u32_at :: "byte list \<Rightarrow> nat \<Rightarrow> nat" where
  "u32_at bs off = be32 (bs ! off, bs ! (off + 1), bs ! (off + 2), bs ! (off + 3))"

definition u16_at :: "byte list \<Rightarrow> nat \<Rightarrow> nat" where
  "u16_at bs off = unat (bs ! (off + 1)) + unat (bs ! off) * 256"

definition entry_name :: "byte list \<Rightarrow> nat \<Rightarrow> nat" where
  "entry_name bs i = u32_at bs (132 + 12 * i)"

definition entry_offset :: "byte list \<Rightarrow> nat \<Rightarrow> nat" where
  "entry_offset bs i = u32_at bs (136 + 12 * i)"

definition after_entry :: "byte list \<Rightarrow> nat \<Rightarrow> reader" where
  "after_entry bs i =
     \<lparr>content = bs, fpos = 144 + 12 * i,
      cTmp = (bs ! (140 + 12 * i), bs ! (141 + 12 * i), bs ! (142 + 12 * i), bs ! (143 + 12 * i)),
      bytesRead = 4\<rparr>"

text \<open>
  Entry \<open>k\<close> is the first one named \<^verbatim>\<open>vcgt\<close>: it lies inside the declared count and
  inside the file, and no entry before it carries the name.
\<close>

definition first_vcgt_entry :: "byte list \<Rightarrow> nat \<Rightarrow> bool" where
  "first_vcgt_entry bs k \<longleftrightarrow>
     144 + 12 * k \<le> length bs \<and> k < u32_at bs 128 \<and> k \<le> INT_MAX \<and>
     entry_name bs k = vcgt \<and> list_all (\<lambda>i. entry_name bs i \<noteq> vcgt) [0..<k]"

text \<open>The reader stands in front of directory entry \<open>i\<close>.\<close>

definition at_entry :: "byte list \<Rightarrow> nat \<Rightarrow> reader \<Rightarrow> bool" where
  "at_entry bs i s \<longleftrightarrow> content s = bs \<and> fpos s = 132 + 12 * i"

section \<open>Concrete inputs\<close>

text \<open>An environment whose indeterminate cells all hold zero.\<close>

definition env0 :: env where
  "env0 = \<lparr>stack_cTmp = (0, 0, 0, 0), fresh = (\<lambda>k i. 0), gamma_entry = (\<lambda>u j n. 0)\<rparr>"

text \<open>
  A profile with one directory entry, \<^verbatim>\<open>vcgt\<close> at offset 144, holding a table of
  3 channels, 2 entries of 2 bytes: red 1, 2; green 3, 4; blue 5, 6.
\<close>

definition profile_table :: "byte list" where
  "profile_table =
     replicate 128 0 @ [0, 0, 0, 1] @
     [0x76, 0x63, 0x67, 0x74, 0, 0, 0, 144, 0, 0, 0, 30] @
     [0x76, 0x63, 0x67, 0x74, 0, 0, 0, 0, 0, 0, 0, 0, 0, 3, 0, 2, 0, 2] @
     [0, 1, 0, 2, 0, 3, 0, 4, 0, 5, 0, 6]"

text \<open>The reader as it stands in front of the table header of that profile.\<close>

definition at_table_header :: reader where
  "at_table_header = \<lparr>content = profile_table, fpos = 156, cTmp = (0, 0, 0, 0), bytesRead = 4\<rparr>"

text \<open>A table of 1024 samples, sample \<open>i\<close> holding the value \<open>i\<close>.\<close>

definition ramp1024 :: "u16 list" where
  "ramp1024 = map word_of_nat [0..<1024]"

text \<open>The same profile announcing 2 channels.\<close>

definition profile_two_channels :: "byte list" where
  "profile_two_channels =
     replicate 128 0 @ [0, 0, 0, 1] @
     [0x76, 0x63, 0x67, 0x74, 0, 0, 0, 144, 0, 0, 0, 26] @
     [0x76, 0x63, 0x67, 0x74, 0, 0, 0, 0, 0, 0, 0, 0, 0, 2, 0, 2, 0, 2] @
     [0, 1, 0, 2, 0, 3, 0, 4]"

definition profile_bad_signature :: "byte list" where
  "profile_bad_signature =
     replicate 128 0 @ [0, 0, 0, 1] @
     [0x76, 0x63, 0x67, 0x74, 0, 0, 0, 144, 0, 0, 0, 30] @
     [0x64, 0x65, 0x73, 0x63, 0, 0, 0, 0, 0, 0, 0, 0, 0, 3, 0, 2, 0, 2] @
     [0, 1, 0, 2, 0, 3, 0, 4, 0, 5, 0, 6]"

definition profile_no_vcgt :: "byte list" where
  "profile_no_vcgt =
     replicate 128 0 @ [0, 0, 0, 2] @
     [0x64, 0x65, 0x73, 0x63, 0, 0, 0, 156, 0, 0, 0, 4] @
     [0x63, 0x70, 0x72, 0x74, 0, 0, 0, 160, 0, 0, 0, 4] @
     [1, 2, 3, 4, 5, 6, 7, 8]"

definition profile_truncated :: "byte list" where
  "profile_truncated =
     replicate 128 0 @ [0, 0, 0, 5] @
     [0x64, 0x65, 0x73, 0x63, 0, 0, 0, 192, 0, 0, 0, 4] @
     [0x76, 0x63, 0x67, 0x74, 0, 0, 0, 196]"

definition profile_offset_past_end :: "byte list" where
  "profile_offset_past_end =
     replicate 128 0 @ [0, 0, 0, 1] @
     [0x76, 0x63, 0x67, 0x74, 0, 0, 16, 0, 0, 0, 0, 30]"

definition profile_one_byte :: "byte list" where
  "profile_one_byte =
     replicate 128 0 @ [0, 0, 0, 1] @
     [0x76, 0x63, 0x67, 0x74, 0, 0, 0, 144, 0, 0, 0, 21] @
     [0x76, 0x63, 0x67, 0x74, 0, 0, 0, 0, 0, 0, 0, 0, 0, 3, 0, 1, 0, 1] @
     [10, 20, 30]"

definition at_one_byte_samples :: reader where
  "at_one_byte_samples = \<lparr>content = profile_one_byte, fpos = 162, cTmp = (0, 1, 0, 0), bytesRead = 2\<rparr>"

definition profile_size_cut :: "byte list" where
  "profile_size_cut =
     [0x76, 0x63, 0x67, 0x74, 0, 0, 0, 0, 0, 0, 0, 0, 0, 3, 0, 1, 0, 2, 0, 7, 0, 8, 0, 9] @
     replicate 104 0 @ [0, 0, 0, 1] @
     [0x76, 0x63, 0x67, 0x74, 0, 0, 0, 0, 0]"

section \<open>Loops that fill an array\<close>

lemma for_loop_fold:
  assumes "\<And>i st. i < n \<Longrightarrow> body i st = Inr (upd i st)" and "n \<le> INT_MAX"
  shows "for_loop j n body st = Inr (fold upd [j..<n] st)"
  using assms
proof (induction j n body st rule: for_loop.induct)
  case (1 j n body st)
  show ?case
  proof (cases "j < n")
    case True
    then have b: "body j st = Inr (upd j st)" using 1 by simp
    have nj: "\<not> INT_MAX \<le> j" using True 1(3) by simp
    have "for_loop (Suc j) n body (upd j st) = Inr (fold upd [Suc j..<n] (upd j st))"
      using 1(1)[OF True b nj] 1(2,3) by simp
    then show ?thesis using True b nj
      by (subst for_loop.simps) (simp add: upt_conv_Cons)
  next
    case False
    then show ?thesis by (subst for_loop.simps) simp
  qed
qed

lemma fold_fill_prefix:
  "k \<le> length xs \<Longrightarrow> fold (\<lambda>j ys. ys[j := f j]) [0..<k] xs = map f [0..<k] @ drop k xs"
proof (induction k)
  case 0
  then show ?case by simp
next
  case (Suc k)
  then have "k < length xs" by simp
  then have "(map f [0..<k] @ drop k xs)[k := f k] = map f [0..<k] @ [f k] @ drop (Suc k) xs"
    by (simp add: list_update_append upd_conv_take_nth_drop)
  then show ?case using Suc by simp
qed

lemma fold_fill:
  "length xs = n \<Longrightarrow> fold (\<lambda>j ys. ys[j := f j]) [0..<n] xs = map f [0..<n]"
  using fold_fill_prefix[of n xs f] by simp

lemma fold_triple:
  "fold (\<lambda>j (r, g, b). (r[j := f j], g[j := f' j], b[j := f'' j])) js (r, g, b) =
     (fold (\<lambda>j ys. ys[j := f j]) js r, fold (\<lambda>j ys. ys[j := f' j]) js g,
      fold (\<lambda>j ys. ys[j := f'' j]) js b)"
  by (induction js arbitrary: r g b) auto

lemma length_malloc [simp]: "length (malloc e k n) = n"
  by (simp add: malloc_def)

lemma copy_loop:
  assumes "\<And>j. j < n \<Longrightarrow> idx j < m" "length r = m" "length g = m" "length b = m"
    "n \<le> INT_MAX" "length rr = n" "length gg = n" "length bb = n"
  shows "for_loop 0 n (copy_entry (r, g, b) idx) (rr, gg, bb) =
     Inr (map (\<lambda>j. r ! idx j) [0..<n], map (\<lambda>j. g ! idx j) [0..<n], map (\<lambda>j. b ! idx j) [0..<n])"
proof -
  let ?upd = "\<lambda>j (rr, gg, bb). (rr[j := r ! idx j], gg[j := g ! idx j], bb[j := b ! idx j])"
  have "\<And>i st. i < n \<Longrightarrow> copy_entry (r, g, b) idx i st = Inr (?upd i st)"
    using assms(1-4) by (auto simp: split_def)
  then have "for_loop 0 n (copy_entry (r, g, b) idx) (rr, gg, bb) = Inr (fold ?upd [0..<n] (rr, gg, bb))"
    using for_loop_fold[of n "copy_entry (r, g, b) idx" ?upd 0] assms(5) by blast
  then show ?thesis using assms(6-8) by (simp add: fold_triple fold_fill)
qed

section \<open>Reading the samples always comes back\<close>

lemma be16_bound: "be16 c < 65536"
proof -
  obtain c0 c1 c2 c3 where c: "c = (c0, c1, c2, c3)" by (cases c) auto
  have "unat c0 < 256" "unat c1 < 256"
    using unsigned_less[of c0] unsigned_less[of c1] by simp_all
  then show ?thesis using c by simp
qed

lemma table_header_bounds:
  "table_header s = (numChannels, numEntries, entrySize, s3) \<Longrightarrow> numEntries < 65536"
  by (auto simp: table_header_def Let_def be16_bound)

lemma length_switch_entrySize: "length (snd (switch_entrySize es j st)) = length (snd st)"
  by (simp add: switch_entrySize_def case_1_def case_2_def Let_def)

lemma length_fold_switch:
  "length (snd (fold (switch_entrySize es) js st)) = length (snd st)"
  by (induction js arbitrary: st) (simp_all add: length_switch_entrySize)

lemma read_channel_total:
  assumes "n \<le> INT_MAX"
  shows "for_loop 0 n (read_entry es) st = Inr (fold (switch_entrySize es) [0..<n] st)"
  by (rule for_loop_fold) (simp_all add: read_entry_def assms)

lemma read_samples_total:
  assumes "numEntries \<le> INT_MAX"
  shows "\<exists>s4 r g b. read_samples e numEntries es s = Inr (s4, (r, g, b)) \<and>
           length r = numEntries \<and> length g = numEntries \<and> length b = numEntries"
proof -
  let ?p1 = "fold (switch_entrySize es) [0..<numEntries] (s, malloc e 0 numEntries)"
  let ?p2 = "fold (switch_entrySize es) [0..<numEntries] (fst ?p1, malloc e 1 numEntries)"
  let ?p3 = "fold (switch_entrySize es) [0..<numEntries] (fst ?p2, malloc e 2 numEntries)"
  have "read_samples e numEntries es s = Inr (fst ?p3, (snd ?p1, snd ?p2, snd ?p3))"
    by (simp add: read_samples_def read_channel_total[OF assms] split_def)
  moreover have "length (snd ?p1) = numEntries" "length (snd ?p2) = numEntries"
    "length (snd ?p3) = numEntries"
    by (simp_all add: length_fold_switch)
  ultimately show ?thesis by blast
qed

section \<open>Reads that find their bytes\<close>

lemma take4_drop:
  assumes "p + 4 \<le> length bs"
  shows "take 4 (drop p bs) = [bs ! p, bs ! (p + 1), bs ! (p + 2), bs ! (p + 3)]"
proof -
  have "length (take 4 (drop p bs)) = 4" using assms by simp
  moreover have "\<And>i. i < 4 \<Longrightarrow> take 4 (drop p bs) ! i = bs ! (p + i)"
    using assms by simp
  ultimately show ?thesis
    by (intro nth_equalityI) (auto simp: nth_Cons' numeral_eq_Suc less_Suc_eq)
qed

lemma take2_drop:
  assumes "p + 2 \<le> length bs"
  shows "take 2 (drop p bs) = [bs ! p, bs ! (p + 1)]"
proof -
  have "length (take 2 (drop p bs)) = 2" using assms by simp
  moreover have "\<And>i. i < 2 \<Longrightarrow> take 2 (drop p bs) ! i = bs ! (p + i)"
    using assms by simp
  ultimately show ?thesis
    by (intro nth_equalityI) (auto simp: nth_Cons' numeral_eq_Suc less_Suc_eq)
qed

lemma fread4_full:
  assumes "fpos s + 4 \<le> length (content s)"
  shows "fread 4 s = s\<lparr>fpos := fpos s + 4,
           cTmp := (content s ! fpos s, content s ! (fpos s + 1), content s ! (fpos s + 2),
                    content s ! (fpos s + 3)),
           bytesRead := 4\<rparr>"
  using assms by (cases "cTmp s") (simp add: fread_def take4_drop)

lemma fread2_full:
  assumes "fpos s + 2 \<le> length (content s)"
  shows "fread 2 s = s\<lparr>fpos := fpos s + 2,
           cTmp := (content s ! fpos s, content s ! (fpos s + 1), fst (snd (snd (cTmp s))),
                    snd (snd (snd (cTmp s)))),
           bytesRead := 2\<rparr>"
  using assms by (cases "cTmp s") (simp add: fread_def take2_drop)

lemma fread_content [simp]: "content (fread n s) = content s"
  by (simp add: fread_def Let_def)

lemma fread_bytesRead: "bytesRead (fread n s) = min n (length (content s) - fpos s)"
  by (simp add: fread_def Let_def)

lemma fread_fpos: "fpos (fread n s) = fpos s + min n (length (content s) - fpos s)"
  by (simp add: fread_def Let_def)

lemma third_read_empty:
  assumes "length (content s) \<le> fpos s + 8"
  shows "bytesRead (fread 4 (fread 4 (fread 4 s))) = 0"
  using assms by (simp add: fread_bytesRead fread_fpos)

section \<open>Walking the directory\<close>

lemma at_entry_after: "at_entry bs (Suc i) (after_entry bs i)"
  by (simp add: at_entry_def after_entry_def)

lemma read_entry_fields:
  assumes "at_entry bs i s" "144 + 12 * i \<le> length bs"
  shows "be32 (cTmp (fread 4 s)) = entry_name bs i"
    and "be32 (cTmp (fread 4 (fread 4 s))) = entry_offset bs i"
    and "fread 4 (fread 4 (fread 4 s)) = after_entry bs i"
proof -
  have c: "content s = bs" and p: "fpos s = 132 + 12 * i"
    using assms(1) by (simp_all add: at_entry_def)
  have s1: "fread 4 s = s\<lparr>fpos := 136 + 12 * i,
      cTmp := (bs ! (132 + 12 * i), bs ! (133 + 12 * i), bs ! (134 + 12 * i), bs ! (135 + 12 * i)),
      bytesRead := 4\<rparr>"
    using assms(2) c p by (subst fread4_full) (simp_all add: add.commute)
  show "be32 (cTmp (fread 4 s)) = entry_name bs i"
    by (simp add: s1 entry_name_def u32_at_def add.commute del: be32.simps)
  have s2: "fread 4 (fread 4 s) = s\<lparr>fpos := 140 + 12 * i,
      cTmp := (bs ! (136 + 12 * i), bs ! (137 + 12 * i), bs ! (138 + 12 * i), bs ! (139 + 12 * i)),
      bytesRead := 4\<rparr>"
    using assms(2) c by (subst s1, subst fread4_full) (simp_all add: add.commute)
  show "be32 (cTmp (fread 4 (fread 4 s))) = entry_offset bs i"
    by (simp add: s2 entry_offset_def u32_at_def add.commute del: be32.simps)
  show "fread 4 (fread 4 (fread 4 s)) = after_entry bs i"
    using assms(2) c by (subst s2, subst fread4_full) (simp_all add: add.commute after_entry_def)
qed


lemma tag_loop_skip:
  assumes "at_entry bs i s" "144 + 12 * i \<le> length bs" "i < numTags" "i < INT_MAX"
    "entry_name bs i \<noteq> vcgt"
  shows "tag_loop e n i numTags s = tag_loop e n (Suc i) numTags (after_entry bs i)"
  using assms(3-5)
  by (subst tag_loop.simps)
     (simp add: Let_def read_entry_fields[OF assms(1,2)] after_entry_def del: be32.simps)

lemma tag_loop_hit:
  assumes "at_entry bs i s" "144 + 12 * i \<le> length bs" "i < numTags"
    "entry_name bs i = vcgt"
  shows "tag_loop e n i numTags s = decode_vcgt e n (entry_offset bs i) (after_entry bs i)"
  using assms(3,4)
  by (subst tag_loop.simps)
     (simp add: Let_def read_entry_fields[OF assms(1,2)] after_entry_def del: be32.simps)

lemma tag_loop_first_match:
  assumes "at_entry bs i s" "i \<le> k" "144 + 12 * k \<le> length bs" "k < numTags" "k \<le> INT_MAX"
    "entry_name bs k = vcgt" "\<And>j. i \<le> j \<Longrightarrow> j < k \<Longrightarrow> entry_name bs j \<noteq> vcgt"
  shows "tag_loop e n i numTags s = decode_vcgt e n (entry_offset bs k) (after_entry bs k)"
  using assms
proof (induction "k - i" arbitrary: i s)
  case 0
  then have "i = k" by simp
  then show ?case using 0 tag_loop_hit[of bs k s numTags e n] by simp
next
  case (Suc d)
  then have ik: "i < k" by simp
  have "tag_loop e n i numTags s = tag_loop e n (Suc i) numTags (after_entry bs i)"
    using Suc.prems ik by (intro tag_loop_skip) simp_all
  also have "\<dots> = decode_vcgt e n (entry_offset bs k) (after_entry bs k)"
    using Suc.prems ik Suc.hyps(2) by (intro Suc.hyps(1)) (simp_all add: at_entry_after)
  finally show ?case .
qed

lemma tag_loop_no_match:
  assumes "at_entry bs i s" "i \<le> numTags" "132 + 12 * numTags \<le> length bs"
    "numTags \<le> INT_MAX" "\<And>j. i \<le> j \<Longrightarrow> j < numTags \<Longrightarrow> entry_name bs j \<noteq> vcgt"
  shows "tag_loop e n i numTags s = Inr (0, None)"
  using assms
proof (induction "numTags - i" arbitrary: i s)
  case 0
  then show ?case by (subst tag_loop.simps) simp
next
  case (Suc d)
  then have ik: "i < numTags" by simp
  have "tag_loop e n i numTags s = tag_loop e n (Suc i) numTags (after_entry bs i)"
    using Suc.prems ik by (intro tag_loop_skip) simp_all
  also have "\<dots> = Inr (0, None)"
    using Suc.prems ik Suc.hyps(2) by (intro Suc.hyps(1)) (simp_all add: at_entry_after)
  finally show ?case .
qed

lemma tag_loop_cut_here:
  assumes "length (content s) \<le> fpos s + 8"
  shows "tag_loop e n i numTags s = Inr (0, None)"
  by (subst tag_loop.simps) (simp add: Let_def third_read_empty[OF assms] del: be32.simps)

lemma tag_loop_cut:
  assumes "at_entry bs i s" "i \<le> k" "132 + 12 * k \<le> length bs" "length bs \<le> 140 + 12 * k"
    "k \<le> INT_MAX" "\<And>j. i \<le> j \<Longrightarrow> j < k \<Longrightarrow> entry_name bs j \<noteq> vcgt"
  shows "tag_loop e n i numTags s = Inr (0, None)"
  using assms
proof (induction "k - i" arbitrary: i s)
  case 0
  then have "length (content s) \<le> fpos s + 8" by (simp add: at_entry_def)
  then show ?case by (rule tag_loop_cut_here)
next
  case (Suc d)
  then have ik: "i < k" by simp
  show ?case
  proof (cases "i < numTags")
    case False
    then show ?thesis by (subst tag_loop.simps) simp
  next
    case True
    have "tag_loop e n i numTags s = tag_loop e n (Suc i) numTags (after_entry bs i)"
      using Suc.prems ik True by (intro tag_loop_skip) simp_all
    also have "\<dots> = Inr (0, None)"
      using Suc.prems ik Suc.hyps(2) by (intro Suc.hyps(1)) (simp_all add: at_entry_after)
    finally show ?thesis .
  qed
qed


lemma read_vcgt_start:
  assumes "132 \<le> length bs"
  shows "\<exists>s. at_entry bs 0 s \<and>
     read_vcgt_from_profile e (Some bs) n = tag_loop e n 0 (u32_at bs 128) s"
proof -
  let ?fp = "fseek 128 \<lparr>content = bs, fpos = 0, cTmp = stack_cTmp e, bytesRead = 0\<rparr>"
  have f: "fread 4 ?fp = \<lparr>content = bs, fpos = 132,
      cTmp = (bs ! 128, bs ! 129, bs ! 130, bs ! 131), bytesRead = 4\<rparr>"
    using assms by (subst fread4_full) (simp_all add: fseek_def)
  show ?thesis
    by (rule exI[of _ "fread 4 ?fp"])
       (simp add: read_vcgt_from_profile_def Let_def f at_entry_def u32_at_def del: be32.simps)
qed

lemma read_vcgt_first_match:
  assumes "first_vcgt_entry bs k"
  shows "read_vcgt_from_profile e (Some bs) n =
           decode_vcgt e n (entry_offset bs k) (after_entry bs k)"
proof -
  have len: "144 + 12 * k \<le> length bs" and k: "k < u32_at bs 128" "k \<le> INT_MAX"
    and hit: "entry_name bs k = vcgt" and miss: "\<And>j. j < k \<Longrightarrow> entry_name bs j \<noteq> vcgt"
    using assms by (auto simp: first_vcgt_entry_def list_all_iff)
  obtain s where s: "at_entry bs 0 s"
    "read_vcgt_from_profile e (Some bs) n = tag_loop e n 0 (u32_at bs 128) s"
    using read_vcgt_start[of bs e n] len by auto
  show ?thesis
    using tag_loop_first_match[OF s(1) _ len k hit] miss s(2) by simp
qed

lemma read_vcgt_no_match:
  assumes "132 + 12 * u32_at bs 128 \<le> length bs" "u32_at bs 128 \<le> INT_MAX"
    "list_all (\<lambda>i. entry_name bs i \<noteq> vcgt) [0..<u32_at bs 128]"
  shows "read_vcgt_from_profile e (Some bs) n = Inr (0, None)"
proof -
  obtain s where s: "at_entry bs 0 s"
    "read_vcgt_from_profile e (Some bs) n = tag_loop e n 0 (u32_at bs 128) s"
    using read_vcgt_start[of bs e n] assms(1) by auto
  have "\<And>j. j < u32_at bs 128 \<Longrightarrow> entry_name bs j \<noteq> vcgt"
    using assms(3) by (simp add: list_all_iff)
  then show ?thesis
    using tag_loop_no_match[OF s(1) _ assms(1,2)] s(2) by simp
qed

lemma read_vcgt_cut:
  assumes "132 + 12 * k \<le> length bs" "length bs \<le> 140 + 12 * k" "k \<le> INT_MAX"
    "list_all (\<lambda>i. entry_name bs i \<noteq> vcgt) [0..<k]"
  shows "read_vcgt_from_profile e (Some bs) n = Inr (0, None)"
proof -
  obtain s where s: "at_entry bs 0 s"
    "read_vcgt_from_profile e (Some bs) n = tag_loop e n 0 (u32_at bs 128) s"
    using read_vcgt_start[of bs e n] assms(1) by auto
  have "\<And>j. j < k \<Longrightarrow> entry_name bs j \<noteq> vcgt"
    using assms(4) by (simp add: list_all_iff)
  then show ?thesis
    using tag_loop_cut[OF s(1) _ assms(1,2,3)] s(2) by simp
qed

lemma read_vcgt_short_header:
  assumes "length bs < 132"
  shows "read_vcgt_from_profile e (Some bs) n = Inr (0, None)"
proof -
  let ?fp = "fseek 128 \<lparr>content = bs, fpos = 0, cTmp = stack_cTmp e, bytesRead = 0\<rparr>"
  have "length (content (fread 4 ?fp)) \<le> fpos (fread 4 ?fp) + 8"
    using assms by (simp add: fread_fpos fseek_def)
  then show ?thesis
    by (simp add: read_vcgt_from_profile_def Let_def tag_loop_cut_here del: be32.simps)
qed

section \<open>The tag body\<close>

lemma decode_vcgt_exit:
  assumes "be32 (cTmp (fread 4 (fseek off s))) \<noteq> vcgt"
  shows "decode_vcgt e n off s = Inl ProcessExit"
  using assms by (simp add: decode_vcgt_def Let_def del: be32.simps)

lemma reread_signature:
  assumes "content s = bs" "off + 4 \<le> length bs"
  shows "be32 (cTmp (fread 4 (fseek off s))) = u32_at bs off"
  using assms by (subst fread4_full) (simp_all add: fseek_def u32_at_def del: be32.simps)

lemma decode_vcgt_table:
  assumes "content s = bs" "off + 12 \<le> length bs" "u32_at bs off = vcgt" "u32_at bs (off + 8) = 0"
  shows "decode_vcgt e n off s =
           decode_table e n (s\<lparr>fpos := off + 12,
             cTmp := (bs ! (off + 8), bs ! (off + 9), bs ! (off + 10), bs ! (off + 11)),
             bytesRead := 4\<rparr>)"
proof -
  have s1: "fread 4 (fseek off s) = s\<lparr>fpos := off + 4,
      cTmp := (bs ! off, bs ! (off + 1), bs ! (off + 2), bs ! (off + 3)), bytesRead := 4\<rparr>"
    using assms(1,2) by (subst fread4_full) (simp_all add: fseek_def)
  have s2: "fread 4 (fread 4 (fseek off s)) = s\<lparr>fpos := off + 8,
      cTmp := (bs ! (off + 4), bs ! (off + 5), bs ! (off + 6), bs ! (off + 7)), bytesRead := 4\<rparr>"
    using assms(1,2) by (subst s1, subst fread4_full) (simp_all add: ac_simps)
  have s3: "fread 4 (fread 4 (fread 4 (fseek off s))) = s\<lparr>fpos := off + 12,
      cTmp := (bs ! (off + 8), bs ! (off + 9), bs ! (off + 10), bs ! (off + 11)), bytesRead := 4\<rparr>"
    using assms(1,2) by (subst s2, subst fread4_full) (simp_all add: ac_simps)
  have n1: "be32 (cTmp (fread 4 (fseek off s))) = vcgt"
    using assms(3) by (simp add: s1 u32_at_def del: be32.simps)
  have n3: "be32 (cTmp (fread 4 (fread 4 (fread 4 (fseek off s))))) = 0"
    using assms(4) by (simp add: s3 u32_at_def ac_simps del: be32.simps)
  show ?thesis
    by (simp add: decode_vcgt_def Let_def n1 n3 del: be32.simps) (simp add: s3)
qed

lemma numChannels_read:
  assumes "content s = bs" "fpos s = p" "p + 2 \<le> length bs"
  shows "fst (table_header s) = u16_at bs p"
proof -
  obtain c0 c1 c2 c3 where c: "cTmp s = (c0, c1, c2, c3)" by (cases "cTmp s") auto
  have "be16 (cTmp (fread 2 s)) = u16_at bs p"
    using assms c by (subst fread2_full) (simp_all add: u16_at_def)
  then show ?thesis by (simp add: table_header_def Let_def del: be16.simps)
qed

lemma decode_table_channels:
  assumes "fst (table_header s) \<noteq> 3"
  shows "decode_table e n s = Inr (0, None)"
  using assms by (simp add: decode_table_def split_def)

lemma decode_table_zero: "decode_table e n s = Inr (rv, out) \<Longrightarrow> rv = 0"
  by (auto simp: decode_table_def split: prod.splits if_splits sum.splits)

lemma decode_formula_zero: "decode_formula e n s = Inr (rv, out) \<Longrightarrow> rv = 0"
  by (auto simp: decode_formula_def Let_def split: sum.splits simp del: be32.simps)

lemma decode_vcgt_zero: "decode_vcgt e n off s = Inr (rv, out) \<Longrightarrow> rv = 0"
  by (auto simp: decode_vcgt_def Let_def split: if_splits simp del: be32.simps
      dest: decode_table_zero decode_formula_zero)

lemma tag_loop_zero: "tag_loop e n i numTags s = Inr (rv, out) \<Longrightarrow> rv = 0"
proof (induction e n i numTags s rule: tag_loop.induct)
  case (1 e nEntries i numTags s)
  show ?case
  proof (cases "i < numTags")
    case False
    then show ?thesis using 1(2) by (subst (asm) tag_loop.simps) simp
  next
    case True
    let ?s1 = "fread 4 s"
    let ?s2 = "fread 4 ?s1"
    let ?s3 = "fread 4 ?s2"
    from 1(2) True have r: "(if bytesRead ?s3 = 0 then Inr (0, None)
            else if be32 (cTmp ?s1) = vcgt then decode_vcgt e nEntries (be32 (cTmp ?s2)) ?s3
            else if INT_MAX \<le> i then Inl SignedOverflow
            else tag_loop e nEntries (Suc i) numTags ?s3) = Inr (rv, out)"
      by (subst (asm) tag_loop.simps) (simp add: Let_def del: be32.simps)
    show ?thesis
    proof (cases "bytesRead ?s3 = 0")
      case True
      then show ?thesis using r by simp
    next
      case b: False
      show ?thesis
      proof (cases "be32 (cTmp ?s1) = vcgt")
        case True
        then show ?thesis using r b decode_vcgt_zero by (simp del: be32.simps)
      next
        case nm: False
        then have o: "\<not> INT_MAX \<le> i" using r b by (auto simp del: be32.simps split: if_splits)
        then have "tag_loop e nEntries (Suc i) numTags ?s3 = Inr (rv, out)"
          using r b nm by (simp del: be32.simps)
        then show ?thesis
          using 1(1)[OF True refl refl refl refl refl refl b nm o] by simp
      qed
    qed
  qed
qed

lemma read_vcgt_zero: "read_vcgt_from_profile e (Some bs) n = Inr (rv, out) \<Longrightarrow> rv = 0"
  by (simp add: read_vcgt_from_profile_def Let_def tag_loop_zero del: be32.simps)

section \<open>Resampling\<close>

lemma decimation_index:
  assumes "0 < n" "n < m" "j < n"
  shows "(m div n) * j < (m::nat)"
proof -
  have r: "0 < m div n" using assms(1,2) by (simp add: div_greater_zero_iff)
  have "(m div n) * j + m div n = (m div n) * Suc j" by simp
  also have "\<dots> \<le> (m div n) * n" using assms(3) by (intro mult_le_mono2) simp
  also have "\<dots> \<le> m" by simp
  finally show ?thesis using r by linarith
qed

lemma for_loop_abort:
  assumes "\<And>i st. j \<le> i \<Longrightarrow> i < k \<Longrightarrow> body i st = Inr (upd i st)"
    and "\<And>st. body k st = Inl a" and "j \<le> k" and "k < n" and "k \<le> INT_MAX"
  shows "for_loop j n body st = Inl a"
  using assms
proof (induction "k - j" arbitrary: j st)
  case 0
  then have "j = k" by simp
  then show ?case using 0 by (subst for_loop.simps) simp
next
  case (Suc d)
  then have jk: "j < k" by simp
  have b: "body j st = Inr (upd j st)" using Suc.prems(1) jk by simp
  have "for_loop (Suc j) n body (upd j st) = Inl a"
    using Suc.prems jk Suc.hyps(2) by (intro Suc.hyps(1)) simp_all
  then show ?case
    using jk Suc.prems(4,5) b by (subst for_loop.simps) simp
qed

text \<open>
  A ramp longer than the table: the copy loop stays inside the sample arrays exactly
  when the ramp size is a multiple of the entry count. Otherwise the index
  \<open>j div ratio\<close> reaches \<open>numEntries\<close> at \<open>j = ratio * numEntries\<close>, which is still below
  \<open>nEntries\<close>.
\<close>

lemma upsample_replication:
  assumes "0 < m" "m < n" "m dvd n" "n \<le> INT_MAX"
    and "length r = m" "length g = m" "length b = m"
  shows "interpolate e n m (r, g, b) =
           Inr (map (\<lambda>j. r ! (j div (n div m))) [0..<n], map (\<lambda>j. g ! (j div (n div m))) [0..<n],
                map (\<lambda>j. b ! (j div (n div m))) [0..<n])"
proof -
  let ?ratio = "n div m"
  have rpos: "0 < ?ratio" using assms(1,2) by (simp add: div_greater_zero_iff)
  have n: "n = ?ratio * m" using assms(3) by simp
  have bound: "\<And>j. j < n \<Longrightarrow> j div ?ratio < m"
  proof -
    fix j assume "j < n"
    then have "j < ?ratio * m" using n by simp
    then show "j div ?ratio < m" using rpos by (simp add: less_mult_imp_div_less mult.commute)
  qed
  have "for_loop 0 n (copy_entry (r, g, b) (\<lambda>j. j div ?ratio))
          (malloc e 3 n, malloc e 4 n, malloc e 5 n) =
        Inr (map (\<lambda>j. r ! (j div ?ratio)) [0..<n], map (\<lambda>j. g ! (j div ?ratio)) [0..<n],
             map (\<lambda>j. b ! (j div ?ratio)) [0..<n])"
    by (rule copy_loop[where m = m]) (use bound assms(4-7) in simp_all)
  then show ?thesis using assms(1,2) by (simp add: interpolate_def Let_def)
qed

lemma upsample_past_end:
  assumes "0 < m" "m < n" "\<not> m dvd n" "n \<le> INT_MAX"
    and "length r = m" "length g = m" "length b = m"
  shows "interpolate e n m (r, g, b) = Inl OutOfBoundsRead"
proof -
  let ?ratio = "n div m"
  let ?k = "?ratio * m"
  let ?upd = "\<lambda>j (rr, gg, bb). (rr[j := r ! (j div ?ratio)], gg[j := g ! (j div ?ratio)],
      bb[j := b ! (j div ?ratio)])"
  have rpos: "0 < ?ratio" using assms(1,2) by (simp add: div_greater_zero_iff)
  have "n mod m \<noteq> 0" using assms(3) by (simp add: dvd_eq_mod_eq_0)
  then have kn: "?k < n" using div_mult_mod_eq[of n m] by linarith
  have inside: "\<And>i st. 0 \<le> i \<Longrightarrow> i < ?k \<Longrightarrow>
      copy_entry (r, g, b) (\<lambda>j. j div ?ratio) i st = Inr (?upd i st)"
  proof -
    fix i :: nat and st :: ramps
    assume "i < ?k"
    then have "i div ?ratio < m" using rpos by (simp add: less_mult_imp_div_less mult.commute)
    then show "copy_entry (r, g, b) (\<lambda>j. j div ?ratio) i st = Inr (?upd i st)"
      using assms(5-7) by (cases st) auto
  qed
  have "?k div ?ratio = m" using rpos by simp
  then have out: "\<And>st. copy_entry (r, g, b) (\<lambda>j. j div ?ratio) ?k st = Inl OutOfBoundsRead"
    using assms(5) by (auto simp: split_def elim!: copy_entry.elims)
  have "for_loop 0 n (copy_entry (r, g, b) (\<lambda>j. j div ?ratio))
          (malloc e 3 n, malloc e 4 n, malloc e 5 n) = Inl OutOfBoundsRead"
    using inside out kn assms(4)
    by (intro for_loop_abort[where k = ?k and upd = ?upd]) simp_all
  then show ?thesis using assms(1,2) by (simp add: interpolate_def Let_def)
qed

section \<open>The formula branch\<close>

text \<open>
  The ramps of a formula tag are built from the first, fourth and seventh field alone;
  the minimum and maximum fields are read and dropped.
\<close>

lemma fold_triple_entry:
  "fold (\<lambda>j out. case out of (r, g, b) \<Rightarrow> (r[j := f j], g[j := f' j], b[j := f'' j])) js (r, g, b) =
     (fold (\<lambda>j ys. ys[j := f j]) js r, fold (\<lambda>j ys. ys[j := f' j]) js g,
      fold (\<lambda>j ys. ys[j := f'' j]) js b)"
  by (induction js arbitrary: r g b) auto

lemma formula_loop:
  assumes "n \<le> INT_MAX"
  shows "for_loop 0 n (formula_entry e n rGamma gGamma bGamma)
           (malloc e 3 n, malloc e 4 n, malloc e 5 n) =
         Inr (map (\<lambda>j. gamma_entry e rGamma j n) [0..<n],
              map (\<lambda>j. gamma_entry e gGamma j n) [0..<n],
              map (\<lambda>j. gamma_entry e bGamma j n) [0..<n])"
proof -
  let ?upd = "\<lambda>j out. case out of (r, g, b) \<Rightarrow>
      (r[j := gamma_entry e rGamma j n], g[j := gamma_entry e gGamma j n],
       b[j := gamma_entry e bGamma j n])"
  have "for_loop 0 n (formula_entry e n rGamma gGamma bGamma)
          (malloc e 3 n, malloc e 4 n, malloc e 5 n) =
        Inr (fold ?upd [0..<n] (malloc e 3 n, malloc e 4 n, malloc e 5 n))"
    using assms by (intro for_loop_fold) (simp_all add: formula_entry_def split: prod.splits)
  then show ?thesis by (simp add: fold_triple_entry fold_fill)
qed

lemma decode_formula_ramps:
  assumes "n \<le> INT_MAX"
  shows "decode_formula e n s =
     Inr (0, Some (map (\<lambda>j. gamma_entry e (be32 (cTmp (fread 4 s))) j n) [0..<n],
                   map (\<lambda>j. gamma_entry e (be32 (cTmp (fread 4 (fread 4 (fread 4 (fread 4 s)))))) j n) [0..<n],
                   map (\<lambda>j. gamma_entry e (be32 (cTmp (fread 4 (fread 4 (fread 4 (fread 4 (fread 4 (fread 4 (fread 4 s))))))))) j n) [0..<n]))"
  by (simp add: decode_formula_def Let_def formula_loop[OF assms] del: be32.simps)

section \<open>From the directory to the table\<close>

lemma read_vcgt_table:
  assumes "first_vcgt_entry bs k" and "off = entry_offset bs k" and "off + 12 \<le> length bs"
    and "u32_at bs off = vcgt" and "u32_at bs (off + 8) = 0"
  shows "read_vcgt_from_profile e (Some bs) n =
           decode_table e n \<lparr>content = bs, fpos = off + 12,
             cTmp = (bs ! (off + 8), bs ! (off + 9), bs ! (off + 10), bs ! (off + 11)),
             bytesRead = 4\<rparr>"
proof -
  have c: "content (after_entry bs k) = bs" by (simp add: after_entry_def)
  have "read_vcgt_from_profile e (Some bs) n = decode_vcgt e n off (after_entry bs k)"
    using assms(1,2) by (simp add: read_vcgt_first_match)
  also have "\<dots> = decode_table e n ((after_entry bs k)\<lparr>fpos := off + 12,
      cTmp := (bs ! (off + 8), bs ! (off + 9), bs ! (off + 10), bs ! (off + 11)), bytesRead := 4\<rparr>)"
    using assms(3-5) by (intro decode_vcgt_table c) simp_all
  finally show ?thesis by (simp add: after_entry_def)
qed

lemma decode_table_steps:
  assumes "table_header s = (3, numEntries, entrySize, s3)"
    and "read_samples e numEntries entrySize s3 = Inr (s4, samples)"
  shows "decode_table e n s =
           (case interpolate e n numEntries samples of
              Inl a \<Rightarrow> Inl a
            | Inr out \<Rightarrow> Inr (0, Some out))"
  by (simp add: decode_table_def assms)

lemma read_vcgt_channels:
  assumes "first_vcgt_entry bs k" and "off = entry_offset bs k" and "off + 14 \<le> length bs"
    and "u32_at bs off = vcgt" and "u32_at bs (off + 8) = 0" and "u16_at bs (off + 12) \<noteq> 3"
  shows "read_vcgt_from_profile e (Some bs) n = Inr (0, None)"
proof -
  let ?s = "(after_entry bs k)\<lparr>fpos := off + 12,
      cTmp := (bs ! (off + 8), bs ! (off + 9), bs ! (off + 10), bs ! (off + 11)), bytesRead := 4\<rparr>"
  have c: "content (after_entry bs k) = bs" by (simp add: after_entry_def)
  have "read_vcgt_from_profile e (Some bs) n = decode_vcgt e n off (after_entry bs k)"
    using assms(1,2) by (simp add: read_vcgt_first_match)
  also have "\<dots> = decode_table e n ?s"
    using assms(3-5) by (intro decode_vcgt_table c) simp_all
  also have "\<dots> = Inr (0, None)"
  proof (rule decode_table_channels)
    have "fst (table_header ?s) = u16_at bs (off + 12)"
      using assms(3) by (intro numChannels_read) (simp_all add: after_entry_def)
    then show "fst (table_header ?s) \<noteq> 3" using assms(6) by simp
  qed
  finally show ?thesis .
qed

lemma fread_inside:
  "bytesRead (fread m s) \<le> length (content s) - fpos s \<and> bytesRead (fread m s) \<le> m"
  by (simp add: fread_bytesRead)

section \<open>The concrete profiles, field by field\<close>

lemma layout_profile_table:
  "first_vcgt_entry profile_table 0 \<and> entry_offset profile_table 0 = 144 \<and>
   length profile_table = 174 \<and> u32_at profile_table 144 = vcgt \<and>
   u32_at profile_table 152 = 0 \<and> profile_table ! 152 = 0 \<and> profile_table ! 153 = 0 \<and>
   profile_table ! 154 = 0 \<and> profile_table ! 155 = 0"
  by (simp add: first_vcgt_entry_def entry_name_def entry_offset_def u32_at_def
      profile_table_def INT_MAX_def vcgt_def nth_append)

lemma samples_profile_table:
  "table_header at_table_header =
     (3, 2, 2, at_table_header\<lparr>fpos := 162, cTmp := (0, 2, 0, 0), bytesRead := 2\<rparr>)"
  "read_samples env0 2 2 (at_table_header\<lparr>fpos := 162, cTmp := (0, 2, 0, 0), bytesRead := 2\<rparr>) =
     Inr (at_table_header\<lparr>fpos := 174, cTmp := (0, 6, 0, 0), bytesRead := 2\<rparr>,
          ([1, 2], [3, 4], [5, 6]))"
  by code_simp+

lemma run_profile_table:
  "read_vcgt_from_profile env0 (Some profile_table) n =
     (case interpolate env0 n 2 ([1, 2], [3, 4], [5, 6]) of
        Inl a \<Rightarrow> Inl a
      | Inr out \<Rightarrow> Inr (0, Some out))"
proof -
  have "read_vcgt_from_profile env0 (Some profile_table) n = decode_table env0 n at_table_header"
    using read_vcgt_table[of profile_table 0 144 env0 n] layout_profile_table
    by (simp add: at_table_header_def)
  then show ?thesis
    using decode_table_steps[OF samples_profile_table] by simp
qed

lemma layout_profile_one_byte:
  "first_vcgt_entry profile_one_byte 0 \<and> entry_offset profile_one_byte 0 = 144 \<and>
   length profile_one_byte = 165 \<and> u32_at profile_one_byte 144 = vcgt \<and>
   u32_at profile_one_byte 152 = 0 \<and> profile_one_byte ! 152 = 0 \<and> profile_one_byte ! 153 = 0 \<and>
   profile_one_byte ! 154 = 0 \<and> profile_one_byte ! 155 = 0"
  by (simp add: first_vcgt_entry_def entry_name_def entry_offset_def u32_at_def
      profile_one_byte_def INT_MAX_def vcgt_def nth_append)

lemma samples_profile_one_byte:
  "table_header \<lparr>content = profile_one_byte, fpos = 156, cTmp = (0, 0, 0, 0), bytesRead = 4\<rparr> =
     (3, 1, 1, at_one_byte_samples)"
  "read_samples env0 1 1 at_one_byte_samples =
     Inr (at_one_byte_samples\<lparr>fpos := 165, cTmp := (20, 30, 0, 0), bytesRead := 0\<rparr>,
          ([5150], [5150], [5150]))"
  "for_loop 0 1 (read_entry 1) (at_one_byte_samples, malloc env0 0 1) =
     Inr (at_one_byte_samples\<lparr>fpos := 165, cTmp := (20, 30, 0, 0), bytesRead := 2\<rparr>, [5150])"
  by code_simp+

lemma layout_profile_two_channels:
  "first_vcgt_entry profile_two_channels 0 \<and> entry_offset profile_two_channels 0 = 144 \<and>
   length profile_two_channels = 170 \<and> u32_at profile_two_channels 144 = vcgt \<and>
   u32_at profile_two_channels 152 = 0 \<and> u16_at profile_two_channels 156 = 2"
  by (simp add: first_vcgt_entry_def entry_name_def entry_offset_def u32_at_def u16_at_def
      profile_two_channels_def INT_MAX_def vcgt_def nth_append)

lemma layout_profile_bad_signature:
  "first_vcgt_entry profile_bad_signature 0 \<and> entry_offset profile_bad_signature 0 = 144 \<and>
   length profile_bad_signature = 174 \<and> u32_at profile_bad_signature 144 \<noteq> vcgt"
  by (simp add: first_vcgt_entry_def entry_name_def entry_offset_def u32_at_def
      profile_bad_signature_def INT_MAX_def vcgt_def nth_append)

lemma layout_profile_no_vcgt:
  "132 + 12 * u32_at profile_no_vcgt 128 \<le> length profile_no_vcgt \<and>
   u32_at profile_no_vcgt 128 \<le> INT_MAX \<and>
   list_all (\<lambda>i. entry_name profile_no_vcgt i \<noteq> vcgt) [0..<u32_at profile_no_vcgt 128]"
  by (simp add: u32_at_def entry_name_def profile_no_vcgt_def INT_MAX_def vcgt_def nth_append
      upt_conv_Cons)

lemma layout_profile_truncated:
  "132 + 12 * 1 \<le> length profile_truncated \<and> length profile_truncated \<le> 140 + 12 * 1 \<and>
   (1::nat) \<le> INT_MAX \<and> u32_at profile_truncated 128 = 5 \<and>
   list_all (\<lambda>i. entry_name profile_truncated i \<noteq> vcgt) [0..<1]"
  by (simp add: u32_at_def entry_name_def profile_truncated_def INT_MAX_def vcgt_def nth_append)

text \<open>
  Only the count of the third \<^verbatim>\<open>fread\<close> of an entry is tested against zero. In this
  profile the file ends after the first byte of the size field: the entry is taken as
  read, and the table that the offset 0 points at is decoded.
\<close>

lemma run_profile_size_cut:
  "length profile_size_cut = 141 \<and> u32_at profile_size_cut 128 = 1 \<and>
   read_vcgt_from_profile env0 (Some profile_size_cut) 1 = Inr (0, Some ([7], [8], [9]))"
proof -
  have "read_vcgt_from_profile env0 (Some profile_size_cut) 1 = Inr (0, Some ([7], [8], [9]))"
    by code_simp
  then show ?thesis
    by (simp add: u32_at_def profile_size_cut_def nth_append)
qed

section \<open>The claims\<close>

text \<open>
  C1. Claimed: for every table and every ramp size the resampling reads sample indices
  below the entry count only. The code has no clamp. Decimation stays in range (this
  is part of C7), but replication does not: for the profile with 2 entries per
  channel and a ramp of 3 entries, \<open>ratio = 1\<close> and the loop reads \<^verbatim>\<open>redRamp[2]\<close>, one
  cell behind the array. The run of the whole function on that profile ends in this
  read.
\<close>

theorem upsample_reads_past_end:
  "read_vcgt_from_profile env0 (Some profile_table) 3 = Inl OutOfBoundsRead"
proof -
  have "interpolate env0 3 2 ([1, 2], [3, 4], [5, 6]) = Inl OutOfBoundsRead"
    by code_simp
  then show ?thesis by (simp add: run_profile_table)
qed

text \<open>
  C2. Claimed: a signature other than \<^verbatim>\<open>vcgt\<close> at the tag offset yields a warning and
  decoding goes on. In the code the mismatch calls \<^verbatim>\<open>error\<close>, which ends the process.
  As amended: when the first directory entry named \<^verbatim>\<open>vcgt\<close> points at four bytes that
  are not \<^verbatim>\<open>vcgt\<close> (or, more generally, when the value read back into the buffer at the
  tag offset is not \<^verbatim>\<open>vcgt\<close>), the run ends with the process exiting and no ramp is
  produced.
\<close>

theorem signature_mismatch_exits:
  assumes "first_vcgt_entry bs k"
  shows "(entry_offset bs k + 4 \<le> length bs \<and> u32_at bs (entry_offset bs k) \<noteq> vcgt \<longrightarrow>
            read_vcgt_from_profile e (Some bs) n = Inl ProcessExit) \<and>
         (be32 (cTmp (fread 4 (fseek (entry_offset bs k) (after_entry bs k)))) \<noteq> vcgt \<longrightarrow>
            read_vcgt_from_profile e (Some bs) n = Inl ProcessExit)"
proof -
  have run: "read_vcgt_from_profile e (Some bs) n =
      decode_vcgt e n (entry_offset bs k) (after_entry bs k)"
    using assms by (rule read_vcgt_first_match)
  have c: "content (after_entry bs k) = bs" by (simp add: after_entry_def)
  show ?thesis
    using run decode_vcgt_exit[of "entry_offset bs k" "after_entry bs k" e n]
      reread_signature[OF c, of "entry_offset bs k"]
    by (auto simp del: be32.simps)
qed

theorem signature_mismatch_exits_witness:
  "first_vcgt_entry profile_bad_signature 0 \<and>
   entry_offset profile_bad_signature 0 + 4 \<le> length profile_bad_signature \<and>
   u32_at profile_bad_signature (entry_offset profile_bad_signature 0) \<noteq> vcgt \<and>
   read_vcgt_from_profile env0 (Some profile_bad_signature) 256 = Inl ProcessExit"
  using signature_mismatch_exits[of profile_bad_signature 0 env0 256]
    layout_profile_bad_signature
  by simp

theorem signature_mismatch_counterexample:
  "read_vcgt_from_profile env0 (Some profile_bad_signature) 2 = Inl ProcessExit"
  by code_simp

text \<open>
  C3. Claimed: a table tag whose channel count is not 3 fails with an error of kind
  UnsupportedFormat and produces no ramp. The code jumps to \<^verbatim>\<open>cleanup_fileparser\<close>
  and returns 0, the value it also returns after a successful decode. As amended: for
  a profile whose first \<^verbatim>\<open>vcgt\<close> entry points at a table tag with a channel count
  other than 3, the function returns 0 and leaves the three output pointers unwritten.
\<close>

theorem non_rgb_table_returns_zero:
  assumes "first_vcgt_entry bs k" and "off = entry_offset bs k" and "off + 14 \<le> length bs"
    and "u32_at bs off = vcgt" and "u32_at bs (off + 8) = 0" and "u16_at bs (off + 12) \<noteq> 3"
  shows "read_vcgt_from_profile e (Some bs) n = Inr (0, None)"
  using assms by (rule read_vcgt_channels)

theorem non_rgb_table_returns_zero_witness:
  "first_vcgt_entry profile_two_channels 0 \<and> u16_at profile_two_channels 156 = 2 \<and>
   read_vcgt_from_profile env0 (Some profile_two_channels) 2 = Inr (0, None)"
  using non_rgb_table_returns_zero[of profile_two_channels 0 144 env0 2]
    layout_profile_two_channels
  by simp

theorem non_rgb_table_counterexample:
  "read_vcgt_from_profile env0 (Some profile_two_channels) 2 = Inr (0, None) \<and>
   read_vcgt_from_profile env0 (Some profile_table) 2 = Inr (0, Some ([1, 2], [3, 4], [5, 6]))"
proof -
  have "read_vcgt_from_profile env0 (Some profile_two_channels) 2 = Inr (0, None)"
    by code_simp
  then show ?thesis by (simp add: run_profile_table interpolate_def)
qed

text \<open>
  C4. Claimed: every sample takes exactly \<^verbatim>\<open>entrySize\<close> bytes, and 1-byte samples
  are brought to the 16-bit scale. In the code \<^verbatim>\<open>case 1\<close> of the switch lacks its
  \<^verbatim>\<open>break\<close>: a 1-byte sample costs three bytes, and the stored value is the 16-bit
  number made of the two bytes after it. The profile below holds one 1-byte sample per
  channel, 10, 20 and 30. The red loop starts at offset 162 and ends at 165, having
  eaten all three samples; every channel comes out as \<open>20 * 256 + 30 = 5150\<close>.
\<close>

theorem one_byte_samples_read_three_bytes:
  "read_vcgt_from_profile env0 (Some profile_one_byte) 1 = Inr (0, Some ([5150], [5150], [5150]))
   \<and> fpos at_one_byte_samples = 162
   \<and> for_loop 0 1 (read_entry 1) (at_one_byte_samples, malloc env0 0 1) =
       Inr (at_one_byte_samples\<lparr>fpos := 165, cTmp := (20, 30, 0, 0), bytesRead := 2\<rparr>, [5150])"
proof -
  have "read_vcgt_from_profile env0 (Some profile_one_byte) 1 =
      decode_table env0 1 \<lparr>content = profile_one_byte, fpos = 156, cTmp = (0, 0, 0, 0), bytesRead = 4\<rparr>"
    using read_vcgt_table[of profile_one_byte 0 144 env0 1] layout_profile_one_byte
    by simp
  then have "read_vcgt_from_profile env0 (Some profile_one_byte) 1 = Inr (0, Some ([5150], [5150], [5150]))"
    using decode_table_steps[OF samples_profile_one_byte(1,2), of 1]
    by (simp add: interpolate_def)
  then show ?thesis
    using samples_profile_one_byte(3) by (simp add: at_one_byte_samples_def)
qed

text \<open>
  C6. Claimed: the directory scan yields the first \<^verbatim>\<open>vcgt\<close> entry or fails with
  TagNotFound or IoError, and never reports success without a tag. The code has no
  such errors: it returns 0 in every case. As amended: when the file holds the
  directory up to and including the first entry named \<^verbatim>\<open>vcgt\<close>, the function goes on
  to decode at that entry's offset, the read buffer still holding the four bytes of
  the entry's size field. When the complete directory holds no such entry, when the
  file ends at or before the first byte of the size field of an entry that only
  complete entries with other names precede (whatever the declared count), and when
  the file is shorter than 132 bytes, the function returns 0 with the output pointers
  unwritten. A file that ends inside a size field is not covered by this statement.
  No \<^verbatim>\<open>fread\<close> delivers more bytes than the file has left.
\<close>

theorem directory_scan:
  "(first_vcgt_entry bs k \<longrightarrow>
      read_vcgt_from_profile e (Some bs) n =
        decode_vcgt e n (entry_offset bs k) (after_entry bs k)) \<and>
   (132 + 12 * u32_at bs 128 \<le> length bs \<and> u32_at bs 128 \<le> INT_MAX \<and>
    list_all (\<lambda>i. entry_name bs i \<noteq> vcgt) [0..<u32_at bs 128] \<longrightarrow>
      read_vcgt_from_profile e (Some bs) n = Inr (0, None)) \<and>
   (132 + 12 * k \<le> length bs \<and> length bs \<le> 140 + 12 * k \<and> k \<le> INT_MAX \<and>
    list_all (\<lambda>i. entry_name bs i \<noteq> vcgt) [0..<k] \<longrightarrow>
      read_vcgt_from_profile e (Some bs) n = Inr (0, None)) \<and>
   (length bs < 132 \<longrightarrow> read_vcgt_from_profile e (Some bs) n = Inr (0, None)) \<and>
   bytesRead (fread m s) \<le> length (content s) - fpos s \<and> bytesRead (fread m s) \<le> m"
  using read_vcgt_first_match[of bs k e n] read_vcgt_no_match[of bs e n]
    read_vcgt_cut[of k bs e n] read_vcgt_short_header[of bs e n] fread_inside[of m s]
  by blast

theorem directory_scan_witness:
  "first_vcgt_entry profile_table 0 \<and>
   read_vcgt_from_profile env0 (Some profile_table) 2 =
     decode_vcgt env0 2 144 (after_entry profile_table 0) \<and>
   read_vcgt_from_profile env0 (Some profile_no_vcgt) 2 = Inr (0, None) \<and>
   u32_at profile_truncated 128 = 5 \<and>
   read_vcgt_from_profile env0 (Some profile_truncated) 2 = Inr (0, None) \<and>
   read_vcgt_from_profile env0 (Some []) 2 = Inr (0, None)"
  using directory_scan[of profile_table 0 env0 2 0 at_table_header]
    directory_scan[of profile_no_vcgt 0 env0 2 0 at_table_header]
    directory_scan[of profile_truncated 1 env0 2 0 at_table_header]
    directory_scan[of "[]" 0 env0 2 0 at_table_header]
    layout_profile_table layout_profile_no_vcgt layout_profile_truncated
  by simp

theorem directory_scan_counterexample:
  "read_vcgt_from_profile env0 (Some profile_no_vcgt) 2 = Inr (0, None) \<and>
   read_vcgt_from_profile env0 (Some profile_truncated) 2 = Inr (0, None) \<and>
   read_vcgt_from_profile env0 (Some profile_table) 2 = Inr (0, Some ([1, 2], [3, 4], [5, 6]))"
proof -
  have "read_vcgt_from_profile env0 (Some profile_no_vcgt) 2 = Inr (0, None)"
    "read_vcgt_from_profile env0 (Some profile_truncated) 2 = Inr (0, None)"
    by code_simp+
  then show ?thesis by (simp add: run_profile_table interpolate_def)
qed

text \<open>
  C7. A table with more entries than the ramp (\<open>numEntries > nEntries > 0\<close>) is
  decimated: with \<open>ratio = numEntries div nEntries\<close>, entry \<open>j\<close> of every output ramp
  is sample \<open>ratio * j\<close> of its channel, for every \<open>j < nEntries\<close>, and each of these
  indices lies inside the sample array. No averaging takes place. The entry count is
  a 16-bit field, hence below 65536. For 1024 samples and 256 entries, entry 10 is
  sample 40.
\<close>

theorem downsample_decimation:
  assumes "0 < nEntries" "nEntries < numEntries" "numEntries < 65536"
    and "length red = numEntries" "length green = numEntries" "length blue = numEntries"
  shows "interpolate e nEntries numEntries (red, green, blue) =
           Inr (map (\<lambda>j. red ! (numEntries div nEntries * j)) [0..<nEntries],
                map (\<lambda>j. green ! (numEntries div nEntries * j)) [0..<nEntries],
                map (\<lambda>j. blue ! (numEntries div nEntries * j)) [0..<nEntries])
         \<and> (\<forall>j<nEntries. numEntries div nEntries * j < numEntries)"
proof -
  let ?ratio = "numEntries div nEntries"
  have inr: "\<And>j. j < nEntries \<Longrightarrow> ?ratio * j < numEntries"
    using decimation_index[OF assms(1,2)] by simp
  have idx: "\<And>j. j < nEntries \<Longrightarrow> (?ratio * j) mod 2 ^ 32 = ?ratio * j"
  proof -
    fix j assume "j < nEntries"
    then have "?ratio * j < numEntries" by (rule inr)
    then have "?ratio * j < 2 ^ 32" using assms(3) by simp
    then show "(?ratio * j) mod 2 ^ 32 = ?ratio * j" by (rule mod_less)
  qed
  have bound: "\<And>j. j < nEntries \<Longrightarrow> (?ratio * j) mod 2 ^ 32 < numEntries"
    using inr idx by simp
  have imax: "nEntries \<le> INT_MAX" using assms(2,3) by (simp add: INT_MAX_def)
  have "for_loop 0 nEntries (copy_entry (red, green, blue) (\<lambda>j. (?ratio * j) mod 2 ^ 32))
          (malloc e 3 nEntries, malloc e 4 nEntries, malloc e 5 nEntries) =
        Inr (map (\<lambda>j. red ! ((?ratio * j) mod 2 ^ 32)) [0..<nEntries],
             map (\<lambda>j. green ! ((?ratio * j) mod 2 ^ 32)) [0..<nEntries],
             map (\<lambda>j. blue ! ((?ratio * j) mod 2 ^ 32)) [0..<nEntries])"
    by (rule copy_loop[where m = numEntries]) (use bound assms(4-6) imax in simp_all)
  moreover have "\<And>xs::u16 list. map (\<lambda>j. xs ! ((?ratio * j) mod 2 ^ 32)) [0..<nEntries] =
      map (\<lambda>j. xs ! (?ratio * j)) [0..<nEntries]"
    using idx by simp
  ultimately show ?thesis
    using assms(1,2) inr by (simp add: interpolate_def Let_def)
qed

theorem downsample_decimation_witness:
  "interpolate env0 256 1024 (ramp1024, ramp1024, ramp1024) =
     Inr (map (\<lambda>j. ramp1024 ! (4 * j)) [0..<256], map (\<lambda>j. ramp1024 ! (4 * j)) [0..<256],
          map (\<lambda>j. ramp1024 ! (4 * j)) [0..<256])
   \<and> map (\<lambda>j. ramp1024 ! (4 * j)) [0..<256] ! 10 = ramp1024 ! 40
   \<and> ramp1024 ! 40 = 40"
  using downsample_decimation[of 256 1024 ramp1024 ramp1024 ramp1024 env0]
  by (simp add: ramp1024_def)

text \<open>
  C8. Claimed: for every table with fewer entries than the ramp, entry \<open>j\<close> of the ramp
  is sample \<open>j div ratio\<close> with \<open>ratio = nEntries div numEntries\<close>. This holds when the
  ramp size is a multiple of the entry count (\<open>upsample_replication\<close>). For every other
  pair of sizes the code reads behind the sample arrays (\<open>upsample_past_end\<close>), as here
  for 2 samples and a ramp of 3: \<open>ratio = 1\<close>, and entry 2 asks for sample 2.
\<close>

theorem upsample_non_multiple:
  "interpolate env0 3 2 ([1, 2], [3, 4], [5, 6]) = Inl OutOfBoundsRead"
  by code_simp

text \<open>
  C9. When the table has as many entries as the ramp, the resampling step hands the
  sample arrays over unchanged, and so does the table decoder: for a table header
  announcing 3 channels and \<open>nEntries\<close> entries, reading the samples comes back with
  three arrays, and exactly these are the ramps the function leaves in its output
  pointers, with return value 0.
\<close>

theorem same_size_identity:
  assumes "table_header s = (3, nEntries, entrySize, s3)"
  shows "interpolate e nEntries nEntries samples = Inr samples \<and>
         (\<exists>s4 decoded. read_samples e nEntries entrySize s3 = Inr (s4, decoded) \<and>
            decode_table e nEntries s = Inr (0, Some decoded))"
proof -
  have "nEntries \<le> INT_MAX"
    using table_header_bounds[OF assms] by (simp add: INT_MAX_def)
  then obtain s4 r g b where rs: "read_samples e nEntries entrySize s3 = Inr (s4, (r, g, b))"
    using read_samples_total by blast
  have "decode_table e nEntries s = Inr (0, Some (r, g, b))"
    by (simp add: decode_table_def assms rs interpolate_def)
  then show ?thesis using rs by (simp add: interpolate_def)
qed

theorem same_size_identity_witness:
  "table_header at_table_header = (3, 2, 2, at_table_header\<lparr>fpos := 162, cTmp := (0, 2, 0, 0), bytesRead := 2\<rparr>)
   \<and> decode_table env0 2 at_table_header = Inr (0, Some ([1, 2], [3, 4], [5, 6]))"
proof -
  let ?s3 = "at_table_header\<lparr>fpos := 162, cTmp := (0, 2, 0, 0), bytesRead := 2\<rparr>"
  have h: "table_header at_table_header = (3, 2, 2, ?s3)"
    by code_simp
  have r: "read_samples env0 2 2 ?s3 =
      Inr (?s3\<lparr>fpos := 174, cTmp := (0, 6, 0, 0), bytesRead := 2\<rparr>, ([1, 2], [3, 4], [5, 6]))"
    by code_simp
  from same_size_identity[OF h, of env0 "([], [], [])"] r h show ?thesis
    by auto
qed

text \<open>
  C10. Claimed: the function returns -1 exactly when the file name is missing or the
  file cannot be opened, and 0 in every other case. The first half holds. For an
  opened file the function does not always return: a mismatching signature at the tag
  offset ends the process. As amended: the function returns -1 exactly when no file
  was opened; whenever it returns for an opened file it returns 0, and it does so with
  the output pointers unwritten when the complete directory has no \<^verbatim>\<open>vcgt\<close> entry,
  when the file ends before the size field of an entry that only other names precede,
  and when the table announces a channel count other than 3; when the first \<^verbatim>\<open>vcgt\<close>
  entry points at four bytes that are not \<^verbatim>\<open>vcgt\<close>, the process exits and the
  function does not return.
\<close>

theorem return_value:
  "read_vcgt_from_profile e None n = Inr (- 1, None) \<and>
   ((\<exists>out. read_vcgt_from_profile e file n = Inr (- 1, out)) \<longleftrightarrow> file = None) \<and>
   (read_vcgt_from_profile e (Some bs) n = Inr (rv, out) \<longrightarrow> rv = 0) \<and>
   (132 + 12 * u32_at bs 128 \<le> length bs \<and> u32_at bs 128 \<le> INT_MAX \<and>
    list_all (\<lambda>i. entry_name bs i \<noteq> vcgt) [0..<u32_at bs 128] \<longrightarrow>
      read_vcgt_from_profile e (Some bs) n = Inr (0, None)) \<and>
   (132 + 12 * k \<le> length bs \<and> length bs \<le> 140 + 12 * k \<and> k \<le> INT_MAX \<and>
    list_all (\<lambda>i. entry_name bs i \<noteq> vcgt) [0..<k] \<longrightarrow>
      read_vcgt_from_profile e (Some bs) n = Inr (0, None)) \<and>
   (first_vcgt_entry bs k \<and> entry_offset bs k + 14 \<le> length bs \<and>
    u32_at bs (entry_offset bs k) = vcgt \<and> u32_at bs (entry_offset bs k + 8) = 0 \<and>
    u16_at bs (entry_offset bs k + 12) \<noteq> 3 \<longrightarrow>
      read_vcgt_from_profile e (Some bs) n = Inr (0, None)) \<and>
   (first_vcgt_entry bs k \<and> entry_offset bs k + 4 \<le> length bs \<and>
    u32_at bs (entry_offset bs k) \<noteq> vcgt \<longrightarrow>
      read_vcgt_from_profile e (Some bs) n = Inl ProcessExit)"
proof -
  have exit: "first_vcgt_entry bs k \<and> entry_offset bs k + 4 \<le> length bs \<and>
      u32_at bs (entry_offset bs k) \<noteq> vcgt \<longrightarrow>
      read_vcgt_from_profile e (Some bs) n = Inl ProcessExit"
  proof (intro impI, elim conjE)
    assume f: "first_vcgt_entry bs k" and l: "entry_offset bs k + 4 \<le> length bs"
      and m: "u32_at bs (entry_offset bs k) \<noteq> vcgt"
    have c: "content (after_entry bs k) = bs" by (simp add: after_entry_def)
    have "decode_vcgt e n (entry_offset bs k) (after_entry bs k) = Inl ProcessExit"
      using m reread_signature[OF c l] by (intro decode_vcgt_exit) simp
    then show "read_vcgt_from_profile e (Some bs) n = Inl ProcessExit"
      using f by (simp add: read_vcgt_first_match)
  qed
  have none: "read_vcgt_from_profile e None n = Inr (- 1, None)"
    by (simp add: read_vcgt_from_profile_def)
  have iff: "(\<exists>out. read_vcgt_from_profile e file n = Inr (- 1, out)) \<longleftrightarrow> file = None"
  proof (cases "file")
    case None
    then show ?thesis using none by simp
  next
    case (Some bs')
    then show ?thesis using read_vcgt_zero[of e bs' n "- 1"] by auto
  qed
  show ?thesis
    using none iff exit read_vcgt_zero[of e bs n rv out] read_vcgt_no_match[of bs e n]
      read_vcgt_cut[of k bs e n] read_vcgt_channels[of bs k "entry_offset bs k" e n]
    by blast
qed

theorem return_value_witness:
  "read_vcgt_from_profile env0 None 256 = Inr (- 1, None) \<and>
   read_vcgt_from_profile env0 (Some profile_no_vcgt) 256 = Inr (0, None) \<and>
   read_vcgt_from_profile env0 (Some profile_truncated) 256 = Inr (0, None) \<and>
   first_vcgt_entry profile_two_channels 0 \<and> u16_at profile_two_channels 156 = 2 \<and>
   read_vcgt_from_profile env0 (Some profile_two_channels) 256 = Inr (0, None) \<and>
   u32_at profile_bad_signature 144 \<noteq> vcgt \<and>
   read_vcgt_from_profile env0 (Some profile_bad_signature) 256 = Inl ProcessExit"
  using return_value[of env0 256 None profile_no_vcgt 0 None 0]
    return_value[of env0 256 None profile_truncated 0 None 1]
    return_value[of env0 256 None profile_two_channels 0 None 0]
    return_value[of env0 256 None profile_bad_signature 0 None 0]
    layout_profile_no_vcgt layout_profile_truncated layout_profile_two_channels
    layout_profile_bad_signature
  by simp

theorem return_value_counterexample:
  "read_vcgt_from_profile env0 (Some profile_offset_past_end) 256 = Inl ProcessExit"
  by code_simp

end
